theory Spec2Isabelle
  imports Complex_Main "HOL-Library.Word" "HOL-Library.Log_Nat"
begin

section \<open>The arithmetic of a C \<open>float\<close>\<close>

text \<open>
  \<open>BMI.c\<close> computes on three \<open>float\<close> variables.  The model takes \<open>float\<close> to be the
  IEEE 754 binary32 format, evaluated in single precision (\<open>FLT_EVAL_METHOD\<close> 0) under
  round-to-nearest, ties-to-even: one sign bit, eight exponent bits, 23 fraction bits.
  Every inhabitant of \<open>f32\<close> is a bit pattern of the format and conversely.
\<close>

datatype f32 = F32 (sign: bool) (expo: "8 word") (frac: "23 word")

text \<open>
  The number a bit pattern stands for, as C's comparison operators see it: not a number,
  an infinity, or a real number.  Both zeros stand for the number 0.
\<close>

datatype xval = Nan | NegInf | Num real | PosInf

definition pow2 :: "int \<Rightarrow> real" where
  "pow2 k = (if 0 \<le> k then 2 ^ nat k else 1 / 2 ^ nat (- k))"

definition is_nan :: "f32 \<Rightarrow> bool" where
  "is_nan x \<longleftrightarrow> expo x = 255 \<and> frac x \<noteq> 0"

definition is_inf :: "f32 \<Rightarrow> bool" where
  "is_inf x \<longleftrightarrow> expo x = 255 \<and> frac x = 0"

definition is_zero :: "f32 \<Rightarrow> bool" where
  "is_zero x \<longleftrightarrow> expo x = 0 \<and> frac x = 0"

definition is_normal :: "f32 \<Rightarrow> bool" where
  "is_normal x \<longleftrightarrow> expo x \<noteq> 0 \<and> expo x \<noteq> 255"

text \<open>
  The magnitude of a finite bit pattern is \<open>significand * 2^exponent\<close>; the pattern is
  subnormal, without the implicit leading bit, when its exponent field is 0.
\<close>

definition significand :: "f32 \<Rightarrow> int" where
  "significand x = (if expo x = 0 then uint (frac x) else 2 ^ 23 + uint (frac x))"

definition exponent :: "f32 \<Rightarrow> int" where
  "exponent x = (if expo x = 0 then - 149 else uint (expo x) - 150)"

definition mag :: "f32 \<Rightarrow> real" where
  "mag x = of_int (significand x) * pow2 (exponent x)"

definition val_of :: "f32 \<Rightarrow> xval" where
  "val_of x = (if is_nan x then Nan
               else if is_inf x then (if sign x then NegInf else PosInf)
               else Num (if sign x then - mag x else mag x))"

definition f32_zero :: "bool \<Rightarrow> f32" where
  "f32_zero s = F32 s 0 0"

definition f32_inf :: "bool \<Rightarrow> f32" where
  "f32_inf s = F32 s 255 0"

text \<open>
  The quiet NaN an invalid operation delivers.  Its sign and payload differ between
  processors; no comparison can tell two NaNs apart.
\<close>

definition f32_nan :: f32 where
  "f32_nan = F32 False 255 (2 ^ 22)"

subsection \<open>Rounding to nearest, ties to even\<close>

text \<open>\<open>ilog2 q\<close> is the exponent \<open>e\<close> with \<open>2^e \<le> q < 2^(e+1)\<close>, for \<open>q > 0\<close>.\<close>

definition ilog2 :: "real \<Rightarrow> int" where
  "ilog2 q = (if 1 \<le> q then bitlen \<lfloor>q\<rfloor> - 1 else - bitlen (\<lceil>1 / q\<rceil> - 1))"

definition rne :: "real \<Rightarrow> int" where
  "rne q = (let f = \<lfloor>q\<rfloor>; r = q - of_int f in
            if r < 1 / 2 then f
            else if 1 / 2 < r then f + 1
            else if even f then f else f + 1)"

text \<open>
  Rounding a positive number to a binary format of precision \<open>p\<close> whose smallest normal
  exponent is \<open>emin\<close>: the integral significand \<open>m\<close> and the exponent \<open>e\<close> of the result
  \<open>m * 2^(e - (p - 1))\<close>, renormalised when the significand rounds up to \<open>2^p\<close>.
\<close>

definition round_sig :: "nat \<Rightarrow> int \<Rightarrow> real \<Rightarrow> int \<times> int" where
  "round_sig p emin q =
     (let e = max (ilog2 q) emin;
          m = rne (q / pow2 (e - (int p - 1)))
      in if m = 2 ^ p then (2 ^ (p - 1), e + 1) else (m, e))"

text \<open>The binary32 result of an operation whose exact value has sign \<open>s\<close> and magnitude \<open>q\<close>.\<close>

definition f32_round :: "bool \<Rightarrow> real \<Rightarrow> f32" where
  "f32_round s q =
     (if q = 0 then f32_zero s
      else case round_sig 24 (- 126) q of (m, e) \<Rightarrow>
        if 127 < e then f32_inf s
        else if m < 2 ^ 23 then F32 s 0 (word_of_int m)
        else F32 s (word_of_int (e + 127)) (word_of_int (m - 2 ^ 23)))"

text \<open>
  A decimal constant of type \<open>double\<close> (binary64: precision 53, exponents from -1022 to
  1023), as the compiler rounds it.
\<close>

definition dbl_const :: "real \<Rightarrow> xval" where
  "dbl_const q =
     (if q = 0 then Num 0
      else case round_sig 53 (- 1022) \<bar>q\<bar> of (m, e) \<Rightarrow>
        if 1023 < e then (if q < 0 then NegInf else PosInf)
        else Num (sgn q * of_int m * pow2 (e - 52)))"

subsection \<open>Multiplication and division\<close>

definition fmul :: "f32 \<Rightarrow> f32 \<Rightarrow> f32" where
  "fmul a b =
     (let s = (sign a \<noteq> sign b) in
      if is_nan a \<or> is_nan b then f32_nan
      else if is_inf a \<or> is_inf b then
        (if is_zero a \<or> is_zero b then f32_nan else f32_inf s)
      else f32_round s (mag a * mag b))"

definition fdiv :: "f32 \<Rightarrow> f32 \<Rightarrow> f32" where
  "fdiv a b =
     (let s = (sign a \<noteq> sign b) in
      if is_nan a \<or> is_nan b then f32_nan
      else if is_inf a then (if is_inf b then f32_nan else f32_inf s)
      else if is_inf b then f32_zero s
      else if is_zero b then (if is_zero a then f32_nan else f32_inf s)
      else f32_round s (mag a / mag b))"

subsection \<open>Comparison\<close>

text \<open>
  The relational operators of C on floating operands.  A comparison with a NaN operand is
  false.  Promoting a \<open>float\<close> to \<open>double\<close> keeps its value, so the operators are given
  on values.
\<close>

fun xlt :: "xval \<Rightarrow> xval \<Rightarrow> bool" where
  "xlt Nan _ = False"
| "xlt _ Nan = False"
| "xlt _ NegInf = False"
| "xlt PosInf _ = False"
| "xlt NegInf _ = True"
| "xlt _ PosInf = True"
| "xlt (Num a) (Num b) = (a < b)"

fun xle :: "xval \<Rightarrow> xval \<Rightarrow> bool" where
  "xle Nan _ = False"
| "xle _ Nan = False"
| "xle NegInf _ = True"
| "xle _ PosInf = True"
| "xle _ NegInf = False"
| "xle PosInf _ = False"
| "xle (Num a) (Num b) = (a \<le> b)"

definition xgt :: "xval \<Rightarrow> xval \<Rightarrow> bool" where
  "xgt a b = xlt b a"

definition xge :: "xval \<Rightarrow> xval \<Rightarrow> bool" where
  "xge a b = xle b a"

section \<open>The program\<close>

text \<open>
  What \<open>main\<close> sends to standard output: the literal text of a format string, or the
  \<open>%f\<close> conversion of a value, which the C library renders.
\<close>

datatype out_item = Text string | Pct_f f32

record locals =
  weight :: f32
  height :: f32
  BMI :: f32

text \<open>
  \<open>scanf("%f", &x)\<close>: when the input matches, the converted value is stored in \<open>x\<close>;
  otherwise \<open>x\<close> keeps what it held, which for an uninitialised local is indeterminate.
\<close>

definition scanf_f :: "f32 option \<Rightarrow> f32 \<Rightarrow> f32" where
  "scanf_f inp old = (case inp of Some v \<Rightarrow> v | None \<Rightarrow> old)"

text \<open>Line 15: \<open>BMI = weight/(height*height)\<close>.\<close>

definition computed_BMI :: "f32 \<Rightarrow> f32 \<Rightarrow> f32" where
  "computed_BMI w h = fdiv w (fmul h h)"

text \<open>
  Lines 18 to 30, the text the chain of conditionals prints; only the first branch
  surrounds its label with newlines.  \<open>18.5\<close>, \<open>24.9\<close> and \<open>29.9\<close> are \<open>double\<close>
  constants; \<open>25\<close> is an \<open>int\<close>, converted to \<open>float\<close> without change of value.
\<close>

definition classification :: "f32 \<Rightarrow> string" where
  "classification b =
     (if xgt (val_of b) (dbl_const (37 / 2)) then CHR 0x0A # ''Underweight'' @ [CHR 0x0A]
      else if xge (val_of b) (dbl_const (37 / 2)) \<and> xle (val_of b) (dbl_const (249 / 10))
        then ''Normal weight''
      else if xge (val_of b) (Num 25) \<and> xle (val_of b) (dbl_const (299 / 10))
        then ''Overweight''
      else ''Obesity'')"

text \<open>
  \<open>main\<close>, from the initial (indeterminate) contents of its locals and the outcome of
  the two \<open>scanf\<close> conversions, to the output and the exit status.
\<close>

definition main :: "locals \<Rightarrow> f32 option \<Rightarrow> f32 option \<Rightarrow> out_item list \<times> int" where
  "main s0 in1 in2 =
     (let out1 = [Text ''Enter Weight in KG:''];
          s1 = s0\<lparr>weight := scanf_f in1 (weight s0)\<rparr>;
          out2 = out1 @ [Text ''Enter Height in m:''];
          s2 = s1\<lparr>height := scanf_f in2 (height s1)\<rparr>;
          s3 = s2\<lparr>BMI := computed_BMI (weight s2) (height s2)\<rparr>;
          out3 = out2 @ [Text ''Your BMI is:'', Pct_f (BMI s3)];
          out4 = out3 @ [Text (classification (BMI s3))];
          out5 = out4 @ [Text ''/n'']
      in (out5, 0))"

text \<open>One content the uninitialised locals may have when \<open>main\<close> starts.\<close>

definition some_locals :: locals where
  "some_locals = \<lparr>weight = f32_nan, height = f32_zero True, BMI = f32_inf False\<rparr>"

subsection \<open>Observations on a run\<close>

definition label_names :: "string list" where
  "label_names = [''Underweight'', ''Normal weight'', ''Overweight'', ''Obesity'']"

definition strip_nl :: "string \<Rightarrow> string" where
  "strip_nl t = filter (\<lambda>c. c \<noteq> CHR 0x0A) t"

text \<open>The category labels that occur in an output, in the order they were printed.\<close>

fun labels_printed :: "out_item list \<Rightarrow> string list" where
  "labels_printed [] = []"
| "labels_printed (Text t # os) =
     (if strip_nl t \<in> set label_names then strip_nl t # labels_printed os
      else labels_printed os)"
| "labels_printed (Pct_f v # os) = labels_printed os"

subsection \<open>The guard table of the specification\<close>

text \<open>
  Section 4.1 of the specification gives the classification as a table read top to
  bottom, the first matching guard deciding, with thresholds written in decimal:
  \<open>bmi > 18.5\<close>, \<open>18.5 \<le> bmi \<le> 24.9\<close>, \<open>25 \<le> bmi \<le> 29.9\<close>, otherwise.
\<close>

fun first_match :: "(('a \<Rightarrow> bool) \<times> 'b) list \<Rightarrow> 'b \<Rightarrow> 'a \<Rightarrow> 'b" where
  "first_match [] d x = d"
| "first_match ((g, l) # gs) d x = (if g x then l else first_match gs d x)"

definition spec_guards :: "((xval \<Rightarrow> bool) \<times> string) list" where
  "spec_guards =
     [(\<lambda>b. xlt (Num (37 / 2)) b, ''Underweight''),
      (\<lambda>b. xle (Num (37 / 2)) b \<and> xle b (Num (249 / 10)), ''Normal weight''),
      (\<lambda>b. xle (Num 25) b \<and> xle b (Num (299 / 10)), ''Overweight'')]"

definition spec_label :: "xval \<Rightarrow> string" where
  "spec_label b = first_match spec_guards ''Obesity'' b"

section \<open>Properties\<close>

subsection \<open>The constants of the comparison chain\<close>

lemmas round_eval = round_sig_def ilog2_def rne_def pow2_def Let_def compute_bitlen

lemma dbl_18_5: "dbl_const (37 / 2) = Num (37 / 2)"
  by (simp add: dbl_const_def round_eval)

lemma dbl_24_9: "dbl_const (249 / 10) = Num (3504363460047667 / 140737488355328)"
  by (simp add: dbl_const_def round_eval)

lemma dbl_29_9: "dbl_const (299 / 10) = Num (4208050901824307 / 140737488355328)"
  by (simp add: dbl_const_def round_eval)

text \<open>
  Once \<open>BMI > 18.5\<close> has failed, \<open>BMI >= 25\<close> cannot hold, and \<open>BMI >= 18.5\<close> holds
  for the value 18.5 alone.
\<close>

lemma classification_cases:
  "classification b =
     (if xlt (Num (37 / 2)) (val_of b) then CHR 0x0A # ''Underweight'' @ [CHR 0x0A]
      else if val_of b = Num (37 / 2) then ''Normal weight''
      else ''Obesity'')"
  by (cases "val_of b") (auto simp: classification_def dbl_18_5 dbl_24_9 dbl_29_9 xgt_def xge_def)

lemma strip_nl_classification:
  "strip_nl (classification b) =
     (if xlt (Num (37 / 2)) (val_of b) then ''Underweight''
      else if val_of b = Num (37 / 2) then ''Normal weight''
      else ''Obesity'')"
  by (simp add: classification_cases strip_nl_def)

lemma strip_nl_classification_label: "strip_nl (classification b) \<in> set label_names"
  by (simp add: strip_nl_classification label_names_def)

lemma main_output:
  "main s0 in1 in2 =
     ([Text ''Enter Weight in KG:'', Text ''Enter Height in m:'', Text ''Your BMI is:'',
       Pct_f (computed_BMI (scanf_f in1 (weight s0)) (scanf_f in2 (height s0))),
       Text (classification (computed_BMI (scanf_f in1 (weight s0)) (scanf_f in2 (height s0)))),
       Text ''/n''], 0)"
  by (simp add: main_def Let_def)

lemma labels_printed_main:
  "labels_printed (fst (main s0 in1 in2)) =
     [strip_nl (classification (computed_BMI (scanf_f in1 (weight s0)) (scanf_f in2 (height s0))))]"
  using strip_nl_classification_label
  by (simp add: main_output) (simp add: strip_nl_def label_names_def)

lemma labels_printed_Some:
  "labels_printed (fst (main s0 (Some w) (Some h))) = [strip_nl (classification (computed_BMI w h))]"
  by (simp add: labels_printed_main scanf_f_def)

lemmas f32_eval = computed_BMI_def fdiv_def fmul_def f32_round_def f32_zero_def f32_inf_def
  f32_nan_def is_nan_def is_inf_def is_zero_def mag_def significand_def exponent_def
  val_of_def round_eval

lemma BMI_18_5: "val_of (computed_BMI (F32 False 131 0x140000) (F32 False 127 0)) = Num (37 / 2)"
  by (simp add: f32_eval)

lemma BMI_50_180:
  "computed_BMI (F32 False 132 0x480000) (F32 False 127 0x666666) = F32 False 130 0x76E9E2"
  by (simp add: f32_eval)

lemma val_50_180: "val_of (F32 False 130 0x76E9E2) = Num (8090865 / 524288)"
  by (simp add: f32_eval)

lemma fmul_zero: "is_zero h \<Longrightarrow> fmul h h = f32_zero False"
  by (simp add: fmul_def is_zero_def is_nan_def is_inf_def mag_def significand_def f32_round_def)

lemma fdiv_zero:
  "fdiv w (f32_zero False) =
     (if is_nan w \<or> is_zero w then f32_nan else f32_inf (sign w))"
  by (auto simp: fdiv_def Let_def f32_zero_def is_zero_def is_nan_def is_inf_def)

lemma BMI_height_zero:
  "is_zero h \<Longrightarrow>
   computed_BMI w h = (if is_nan w \<or> is_zero w then f32_nan else f32_inf (sign w))"
  by (simp add: computed_BMI_def fmul_zero fdiv_zero)

lemma val_of_nan [simp]: "val_of f32_nan = Nan"
  by (simp add: val_of_def f32_nan_def is_nan_def)

lemma val_of_inf [simp]: "val_of (f32_inf s) = (if s then NegInf else PosInf)"
  by (simp add: val_of_def f32_inf_def is_nan_def is_inf_def)

lemma is_nan_val: "is_nan b \<longleftrightarrow> val_of b = Nan"
  by (simp add: val_of_def)

lemma pow2_pos [simp]: "0 < pow2 k"
  by (simp add: pow2_def)

lemma significand_nonneg: "0 \<le> significand x"
  by (simp add: significand_def)

lemma significand_zero_iff: "significand x = 0 \<longleftrightarrow> expo x = 0 \<and> frac x = 0"
proof -
  have "0 < 2 ^ 23 + uint (frac x)" by (simp add: add_pos_nonneg)
  then show ?thesis by (auto simp: significand_def uint_0_iff)
qed

lemma mag_nonneg: "0 \<le> mag x"
  unfolding mag_def by (intro mult_nonneg_nonneg) (simp_all add: significand_nonneg less_imp_le)

lemma mag_zero_iff: "mag x = 0 \<longleftrightarrow> is_zero x"
  using pow2_pos [of "exponent x"]
  by (simp add: mag_def significand_zero_iff is_zero_def del: pow2_pos)

lemma positive_weight:
  assumes "xlt (Num 0) (val_of w)"
  shows "\<not> is_nan w" "\<not> is_zero w" "\<not> sign w"
proof -
  show n: "\<not> is_nan w" using assms by (auto simp: val_of_def)
  show "\<not> is_zero w" using assms n mag_zero_iff [of w]
    by (auto simp: val_of_def is_inf_def is_zero_def split: if_splits)
  show "\<not> sign w" using assms n mag_nonneg [of w]
    by (auto simp: val_of_def split: if_splits)
qed

subsection \<open>The error of one rounding\<close>

lemma pow2_powi: "pow2 k = 2 powi k"
  by (simp add: pow2_def power_int_def power_one_over inverse_eq_divide)

lemma pow2_add: "pow2 (a + b) = pow2 a * pow2 b"
  by (simp add: pow2_powi power_int_add)

lemma pow2_mono: "a \<le> b \<Longrightarrow> pow2 a \<le> pow2 b"
  by (simp add: pow2_powi power_int_increasing)

lemma pow2_nat: "pow2 (int n) = 2 ^ n"
  by (simp add: pow2_def)

lemma pow2_shift: "pow2 (a + int n) = pow2 a * 2 ^ n"
  by (simp only: pow2_add pow2_nat)

lemma bitlen_pos: "0 < n \<Longrightarrow> 0 < bitlen n"
  using bitlen_eq_zero_iff [of n] bitlen_nonneg [of n] by linarith

lemma ilog2_lower: "0 < q \<Longrightarrow> pow2 (ilog2 q) \<le> q"
proof (cases "1 \<le> q")
  case True
  then have n: "0 < \<lfloor>q\<rfloor>" by linarith
  have "2 ^ nat (bitlen \<lfloor>q\<rfloor> - 1) \<le> \<lfloor>q\<rfloor>" using bitlen_bounds [OF n] by simp
  then have "real_of_int (2 ^ nat (bitlen \<lfloor>q\<rfloor> - 1)) \<le> q" by (simp only: le_floor_iff)
  then have "(2::real) ^ nat (bitlen \<lfloor>q\<rfloor> - 1) \<le> q" by simp
  then show ?thesis using True bitlen_pos [OF n] by (simp add: ilog2_def pow2_def)
next
  case False
  assume "0 < q"
  with False have y: "1 < 1 / q" by simp
  define n where "n = \<lceil>1 / q\<rceil> - 1"
  have n: "0 < n" using y unfolding n_def by linarith
  have "n < 2 ^ nat (bitlen n)" using bitlen_bounds [OF n] by simp
  then have "\<lceil>1 / q\<rceil> \<le> 2 ^ nat (bitlen n)" unfolding n_def by simp
  then have "1 / q \<le> real_of_int (2 ^ nat (bitlen n))" by (simp only: ceiling_le_iff)
  then have "1 / q \<le> 2 ^ nat (bitlen n)" by simp
  then have "1 / 2 ^ nat (bitlen n) \<le> q" using \<open>0 < q\<close> by (simp add: field_simps)
  then show ?thesis using False bitlen_pos [OF n] by (simp add: ilog2_def pow2_def n_def)
qed

lemma ilog2_upper: "0 < q \<Longrightarrow> q < pow2 (ilog2 q + 1)"
proof (cases "1 \<le> q")
  case True
  then have n: "0 < \<lfloor>q\<rfloor>" by linarith
  have "\<lfloor>q\<rfloor> < 2 ^ nat (bitlen \<lfloor>q\<rfloor>)" using bitlen_bounds [OF n] by simp
  then have "q < real_of_int (2 ^ nat (bitlen \<lfloor>q\<rfloor>))" by (simp only: floor_less_iff)
  then have "q < 2 ^ nat (bitlen \<lfloor>q\<rfloor>)" by simp
  then show ?thesis using True bitlen_pos [OF n] by (simp add: ilog2_def pow2_def)
next
  case False
  assume "0 < q"
  with False have y: "1 < 1 / q" by simp
  define n where "n = \<lceil>1 / q\<rceil> - 1"
  have n: "0 < n" using y unfolding n_def by linarith
  have b: "0 < bitlen n" using n by (rule bitlen_pos)
  have "2 ^ nat (bitlen n - 1) \<le> n" using bitlen_bounds [OF n] by simp
  then have "2 ^ nat (bitlen n - 1) < \<lceil>1 / q\<rceil>" unfolding n_def by simp
  then have "real_of_int (2 ^ nat (bitlen n - 1)) < 1 / q" by (simp only: less_ceiling_iff)
  then have "2 ^ nat (bitlen n - 1) < 1 / q" by simp
  then have "q < 1 / 2 ^ nat (bitlen n - 1)" using \<open>0 < q\<close> by (simp add: field_simps)
  moreover have "pow2 (- bitlen n + 1) = 1 / 2 ^ nat (bitlen n - 1)"
    using b by (cases "bitlen n = 1") (simp_all add: pow2_def)
  ultimately show ?thesis using False by (simp add: ilog2_def n_def)
qed

lemma rne_error: "\<bar>real_of_int (rne x) - x\<bar> \<le> 1 / 2"
  unfolding rne_def Let_def by (auto simp: abs_le_iff)

lemma rne_lower: "real_of_int k \<le> x \<Longrightarrow> k \<le> rne x"
  unfolding rne_def Let_def by (auto simp: le_floor_iff intro: order_trans [where y = "\<lfloor>x\<rfloor>"])

lemma rne_upper: "x \<le> real_of_int k \<Longrightarrow> rne x \<le> k"
proof -
  assume a: "x \<le> real_of_int k"
  show ?thesis
  proof (cases "x = real_of_int k")
    case True then show ?thesis by (simp add: rne_def)
  next
    case False
    with a have "x < real_of_int k" by simp
    then have "\<lfloor>x\<rfloor> < k" by (simp add: floor_less_iff)
    then show ?thesis unfolding rne_def Let_def by auto
  qed
qed

text \<open>
  What \<open>round_sig\<close> delivers for binary32: a significand below \<open>2^24\<close>, normal unless
  the exponent is the smallest one, at most half a unit in the last place from \<open>q\<close>.
\<close>

lemma round_sig_24:
  assumes q: "0 < q" and r: "round_sig 24 (- 126) q = (m, e)"
  shows "0 \<le> m" and "m < 2 ^ 24" and "- 126 \<le> e"
    and "m < 2 ^ 23 \<Longrightarrow> e = - 126"
    and "\<bar>real_of_int m * pow2 (e - 23) - q\<bar> * 2 \<le> pow2 (e - 23)"
proof -
  define e0 where "e0 = max (ilog2 q) (- 126)"
  define u where "u = pow2 (e0 - 23)"
  define x where "x = q / u"
  have u: "0 < u" by (simp add: u_def)
  have qx: "q = x * u" using u by (simp add: x_def)
  have p23: "pow2 e0 = u * 8388608"
    using pow2_shift [of "e0 - 23" 23] by (simp add: u_def)
  have p24: "pow2 (e0 + 1) = u * 16777216"
    using pow2_shift [of "e0 - 23" 24] by (simp add: u_def add.commute)
  have p22: "pow2 (e0 - 22) = u * 2"
    using pow2_shift [of "e0 - 23" 1] by (simp add: u_def add.commute)
  have "q < pow2 (ilog2 q + 1)" using q by (rule ilog2_upper)
  also have "\<dots> \<le> pow2 (e0 + 1)" by (rule pow2_mono) (simp add: e0_def)
  finally have "x * u < 16777216 * u" by (simp add: qx p24 mult.commute)
  then have xu: "x < 16777216" using u by simp
  then have hi: "rne x \<le> 16777216" using rne_upper [of x 16777216] by simp
  have "0 \<le> x" using q u by (simp add: x_def)
  then have lo: "0 \<le> rne x" using rne_lower [of 0 x] by simp
  have nrm: "8388608 \<le> rne x" if "- 126 \<le> ilog2 q"
  proof -
    from that have "e0 = ilog2 q" by (simp add: e0_def)
    then have "pow2 e0 \<le> q" using ilog2_lower [OF q] by simp
    then have "8388608 * u \<le> x * u" by (simp add: qx p23 mult.commute)
    then have "8388608 \<le> x" using u by simp
    then show ?thesis using rne_lower [of 8388608 x] by simp
  qed
  have err: "\<bar>real_of_int (rne x) * u - q\<bar> * 2 \<le> u"
  proof -
    have "\<bar>real_of_int (rne x) * u - q\<bar> = \<bar>real_of_int (rne x) - x\<bar> * u"
      using u by (simp add: qx abs_mult flip: left_diff_distrib)
    also have "\<dots> \<le> (1 / 2) * u"
      using rne_error [of x] u by (intro mult_right_mono) simp_all
    finally show ?thesis by simp
  qed
  have res: "(m, e) = (if rne x = 16777216 then (8388608, e0 + 1) else (rne x, e0))"
    using r by (auto simp: round_sig_def Let_def e0_def x_def u_def split: if_splits)
  show "0 \<le> m" using res lo by (simp split: if_splits)
  show "m < 2 ^ 24" using res hi by (simp split: if_splits)
  show "- 126 \<le> e" using res by (simp add: e0_def split: if_splits)
  show "e = - 126" if "m < 2 ^ 23"
  proof (rule ccontr)
    assume "e \<noteq> - 126"
    with res have "- 126 \<le> ilog2 q \<or> rne x = 16777216"
      by (auto simp: e0_def max_def split: if_splits)
    with nrm res that show False by (auto split: if_splits)
  qed
  show "\<bar>real_of_int m * pow2 (e - 23) - q\<bar> * 2 \<le> pow2 (e - 23)"
  proof (cases "rne x = 16777216")
    case True
    with res have "m = 8388608" "e = e0 + 1" by simp_all
    then show ?thesis using err True u by (simp add: p22)
  next
    case False
    with res have "m = rne x" "e = e0" by simp_all
    then show ?thesis using err by (simp add: u_def)
  qed
qed

lemma uint_expo_field: "0 \<le> k \<Longrightarrow> k < 256 \<Longrightarrow> uint (word_of_int k :: 8 word) = k"
  by (simp add: uint_word_of_int)

lemma uint_frac_field: "0 \<le> k \<Longrightarrow> k < 8388608 \<Longrightarrow> uint (word_of_int k :: 23 word) = k"
  by (simp add: uint_word_of_int)

text \<open>
  A rounding that delivers a normal number keeps the sign and is within \<open>2^-24\<close> of
  its result, relatively.
\<close>

lemma f32_round_normal:
  assumes q: "0 < q" and n: "is_normal (f32_round s q)"
  shows "sign (f32_round s q) = s"
    and "\<bar>mag (f32_round s q) - q\<bar> * 16777216 \<le> mag (f32_round s q)"
proof -
  obtain m e where r: "round_sig 24 (- 126) q = (m, e)" by (cases "round_sig 24 (- 126) q")
  note rs = round_sig_24 [OF q r]
  have e: "e \<le> 127"
    using n q r by (auto simp: f32_round_def is_normal_def f32_inf_def split: if_splits)
  have m: "8388608 \<le> m"
    using n q r e by (auto simp: f32_round_def is_normal_def split: if_splits)
  define E :: "8 word" where "E = word_of_int (e + 127)"
  define F :: "23 word" where "F = word_of_int (m - 8388608)"
  have res: "f32_round s q = F32 s E F"
    using q r e m by (simp add: f32_round_def E_def F_def)
  show "sign (f32_round s q) = s" by (simp add: res)
  have ue: "uint E = e + 127"
    unfolding E_def using e rs(3) by (intro uint_expo_field) simp_all
  have uf: "uint F = m - 8388608"
    unfolding F_def using m rs(2) by (intro uint_frac_field) simp_all
  have ne: "E \<noteq> 0" using ue rs(3) by auto
  have sg: "significand (F32 s E F) = m" using ne by (simp add: significand_def uf)
  have ex: "exponent (F32 s E F) = e - 23" using ne by (simp add: exponent_def ue)
  have mg: "mag (f32_round s q) = real_of_int m * pow2 (e - 23)"
    by (simp only: res mag_def sg ex)
  have "8388608 * pow2 (e - 23) \<le> real_of_int m * pow2 (e - 23)"
    using m by (intro mult_right_mono) (simp_all add: less_imp_le)
  moreover have "\<bar>real_of_int m * pow2 (e - 23) - q\<bar> * 2 \<le> pow2 (e - 23)" by (rule rs(5))
  ultimately show "\<bar>mag (f32_round s q) - q\<bar> * 16777216 \<le> mag (f32_round s q)"
    unfolding mg by linarith
qed

lemma val_of_positive:
  assumes "val_of a = Num x" and "0 < x"
  shows "\<not> is_nan a" and "\<not> is_inf a" and "\<not> is_zero a" and "\<not> sign a" and "mag a = x"
proof -
  show n: "\<not> is_nan a" and i: "\<not> is_inf a"
    using assms by (auto simp: val_of_def split: if_splits)
  show s: "\<not> sign a"
    using assms n i mag_nonneg [of a] by (auto simp: val_of_def split: if_splits)
  show m: "mag a = x"
    using assms n i s by (simp add: val_of_def)
  show "\<not> is_zero a"
    using m assms(2) mag_zero_iff [of a] by auto
qed

lemma is_normal_class: "is_normal a \<Longrightarrow> \<not> is_nan a \<and> \<not> is_inf a \<and> \<not> is_zero a"
  by (simp add: is_normal_def is_nan_def is_inf_def is_zero_def)

text \<open>Two roundings, each within \<open>2^-24\<close> of its result, compose to within \<open>2^-22\<close>.\<close>

lemma two_roundings:
  fixes x Y H B :: real
  assumes Y: "0 < Y" and H: "0 < H" and B: "0 \<le> B"
    and e1: "\<bar>H - Y\<bar> * 16777216 \<le> H"
    and e2: "\<bar>B - x / H\<bar> * 16777216 \<le> B"
  shows "\<bar>B - x / Y\<bar> \<le> x / Y / 4194304"
proof -
  define P where "P = B * H"
  define Q where "Q = B * Y"
  have P: "0 \<le> P" using B H by (simp add: P_def)
  have "\<bar>B * H - B * Y\<bar> * 16777216 = B * (\<bar>H - Y\<bar> * 16777216)"
    using B by (simp add: abs_mult flip: right_diff_distrib)
  also have "\<dots> \<le> B * H" using e1 B by (rule mult_left_mono)
  finally have q: "\<bar>P - Q\<bar> * 16777216 \<le> P" by (simp add: P_def Q_def)
  have "(B - x / H) * H = B * H - x" using H by (simp add: field_simps)
  then have "\<bar>B * H - x\<bar> = \<bar>B - x / H\<bar> * \<bar>H\<bar>" by (simp only: abs_mult [symmetric])
  then have "\<bar>B * H - x\<bar> * 16777216 = (\<bar>B - x / H\<bar> * 16777216) * H"
    using H by simp
  also have "\<dots> \<le> B * H" using e2 H by (intro mult_right_mono) simp_all
  finally have p: "\<bar>P - x\<bar> * 16777216 \<le> P" by (simp add: P_def)
  have "\<bar>P - x\<bar> \<le> P / 16777216" and "\<bar>P - Q\<bar> \<le> P / 16777216"
    using p q by simp_all
  then have "\<bar>Q - x\<bar> \<le> x / 4194304"
    using P unfolding abs_le_iff by auto
  then have "\<bar>Q - x\<bar> / Y \<le> x / 4194304 / Y"
    using Y by (intro divide_right_mono) simp_all
  moreover have "(Q - x) / Y = B - x / Y" using Y by (simp add: Q_def field_simps)
  then have "\<bar>B - x / Y\<bar> = \<bar>Q - x\<bar> / \<bar>Y\<bar>" by (simp only: abs_divide [symmetric])
  ultimately show ?thesis using Y by simp
qed

subsection \<open>A conversion that does not match\<close>

text \<open>
  When \<open>scanf\<close> stores nothing, the run computes on what the local held before: two
  runs on the same input can then differ.
\<close>

lemma unread_weight_shows:
  "main (some_locals\<lparr>weight := F32 False 132 0x480000\<rparr>) None (Some (F32 False 127 0))
     \<noteq> main some_locals None (Some (F32 False 127 0))"
  by (simp add: main_output scanf_f_def some_locals_def f32_eval)

section \<open>The claims\<close>

text \<open>
  C1, as amended.  The labels collapse to three outcomes, not two: a BMI above 18.5 prints
  "Underweight", a BMI of exactly 18.5 prints "Normal weight", and every other BMI (below
  18.5, or not a number) prints "Obesity"; "Overweight" is never printed.
\<close>

theorem C1_three_outcomes:
  "labels_printed (fst (main s0 (Some w) (Some h))) =
     [if xgt (val_of (computed_BMI w h)) (Num (37 / 2)) then ''Underweight''
      else if val_of (computed_BMI w h) = Num (37 / 2) then ''Normal weight''
      else ''Obesity'']
   \<and> ''Overweight'' \<notin> set (labels_printed (fst (main s0 (Some w) (Some h))))"
  by (simp add: labels_printed_Some strip_nl_classification xgt_def)

text \<open>
  C1 as stated fails: for weight 18.5 and height 1 the BMI is 18.5, which is less than or
  equal to 18.5, and the program prints "Normal weight", not "Obesity".
\<close>

theorem C1_counterexample:
  "xle (val_of (computed_BMI (F32 False 131 0x140000) (F32 False 127 0))) (Num (37 / 2))
   \<and> labels_printed (fst (main some_locals (Some (F32 False 131 0x140000)) (Some (F32 False 127 0))))
       = [''Normal weight'']"
  by (simp add: labels_printed_Some strip_nl_classification BMI_18_5)

text \<open>
  C2.  For every input, the label the program prints is the one the guard table of the
  specification selects, read top to bottom with the first matching guard winning.
\<close>

theorem C2_first_match:
  "labels_printed (fst (main s0 in1 in2)) =
     [spec_label (val_of (computed_BMI (scanf_f in1 (weight s0)) (scanf_f in2 (height s0))))]"
proof -
  have "strip_nl (classification b) = spec_label (val_of b)" for b
    by (cases "val_of b") (auto simp: strip_nl_classification spec_label_def spec_guards_def)
  then show ?thesis by (simp add: labels_printed_main)
qed

text \<open>
  C3, as amended.  For a weight and a height above zero whose product \<open>height*height\<close>
  and whose quotient are both computed as normal numbers (no overflow to infinity, no
  underflow to zero or to a subnormal), the computed BMI is finite and differs from
  \<open>weight / height^2\<close> by at most \<open>2^-22\<close> of that quotient.
\<close>

theorem C3_relative_error:
  assumes w: "val_of w = Num x" and h: "val_of h = Num y" and x: "0 < x" and y: "0 < y"
    and hh: "is_normal (fmul h h)" and b: "is_normal (computed_BMI w h)"
  shows "val_of (computed_BMI w h) = Num (mag (computed_BMI w h))
     \<and> \<bar>mag (computed_BMI w h) - x / (y * y)\<bar> \<le> x / (y * y) / 2 ^ 22"
proof -
  note pw = val_of_positive [OF w x] and ph = val_of_positive [OF h y]
  have Y: "0 < y * y" using y by simp
  have m: "fmul h h = f32_round False (y * y)"
    using ph by (simp add: fmul_def)
  have H: "0 < mag (fmul h h)"
    using is_normal_class [OF hh] mag_zero_iff [of "fmul h h"] mag_nonneg [of "fmul h h"]
    by linarith
  have e1: "\<bar>mag (fmul h h) - y * y\<bar> * 16777216 \<le> mag (fmul h h)"
    using f32_round_normal(2) [OF Y, of False] hh by (simp add: m)
  have s: "\<not> sign (fmul h h)"
    using f32_round_normal(1) [OF Y, of False] hh by (simp add: m)
  have q: "0 < x / mag (fmul h h)" using x H by simp
  have d: "computed_BMI w h = f32_round False (x / mag (fmul h h))"
    using pw is_normal_class [OF hh] s by (simp add: computed_BMI_def fdiv_def)
  have e2: "\<bar>mag (computed_BMI w h) - x / mag (fmul h h)\<bar> * 16777216 \<le> mag (computed_BMI w h)"
    using f32_round_normal(2) [OF q, of False] b by (simp add: d)
  have "\<not> sign (computed_BMI w h)"
    using f32_round_normal(1) [OF q, of False] b by (simp add: d)
  then have "val_of (computed_BMI w h) = Num (mag (computed_BMI w h))"
    using is_normal_class [OF b] by (simp add: val_of_def)
  moreover have "\<bar>mag (computed_BMI w h) - x / (y * y)\<bar> \<le> x / (y * y) / 4194304"
    using Y H mag_nonneg e1 e2 by (rule two_roundings)
  ultimately show ?thesis by simp
qed

theorem C3_witness:
  "val_of (F32 False 132 0x480000) = Num 50
   \<and> val_of (F32 False 127 0x666666) = Num (7549747 / 4194304)
   \<and> is_normal (fmul (F32 False 127 0x666666) (F32 False 127 0x666666))
   \<and> is_normal (computed_BMI (F32 False 132 0x480000) (F32 False 127 0x666666))
   \<and> val_of (computed_BMI (F32 False 132 0x480000) (F32 False 127 0x666666))
       = Num (8090865 / 524288)
   \<and> \<bar>8090865 / 524288 - 50 / (7549747 / 4194304 * (7549747 / 4194304))\<bar>
       \<le> (50 / (7549747 / 4194304 * (7549747 / 4194304)) / 2 ^ 22 :: real)"
proof -
  have w: "val_of (F32 False 132 0x480000) = Num 50"
    by (simp add: f32_eval)
  have h: "val_of (F32 False 127 0x666666) = Num (7549747 / 4194304)"
    by (simp add: f32_eval)
  have hh: "is_normal (fmul (F32 False 127 0x666666) (F32 False 127 0x666666))"
    by (simp add: is_normal_def f32_eval)
  have b: "is_normal (computed_BMI (F32 False 132 0x480000) (F32 False 127 0x666666))"
    by (simp add: BMI_50_180 is_normal_def)
  have v: "mag (F32 False 130 0x76E9E2) = 8090865 / 524288"
    by (simp add: f32_eval)
  show ?thesis
    using C3_relative_error [OF w h _ _ hh b] w h hh b
    by (simp add: BMI_50_180 v)
qed

text \<open>
  C3 as stated fails where an operation leaves the range of the format: for the weight
  \<open>2^-126\<close> and the height \<open>2^-76\<close>, both above zero, \<open>weight / height^2\<close> is
  \<open>2^26\<close>, but \<open>height*height\<close> rounds to zero and the computed BMI is +infinity.
\<close>

theorem C3_counterexample:
  "val_of (F32 False 1 0) = Num (1 / 2 ^ 126)
   \<and> val_of (F32 False 51 0) = Num (1 / 2 ^ 76)
   \<and> (1 / 2 ^ 126) / ((1 / 2 ^ 76) * (1 / 2 ^ 76)) = (2 ^ 26 :: real)
   \<and> val_of (computed_BMI (F32 False 1 0) (F32 False 51 0)) = PosInf"
  by (simp add: f32_eval)

text \<open>
  C4.  For every input, the output is the two prompts, the text "Your BMI is:" with the
  computed BMI converted by \<open>%f\<close>, then one category label, then the trailing "/n":
  exactly one label is printed, and it comes after the BMI.
\<close>

theorem C4_value_then_one_label:
  "fst (main s0 in1 in2) =
     [Text ''Enter Weight in KG:'', Text ''Enter Height in m:'', Text ''Your BMI is:'',
      Pct_f (computed_BMI (scanf_f in1 (weight s0)) (scanf_f in2 (height s0))),
      Text (classification (computed_BMI (scanf_f in1 (weight s0)) (scanf_f in2 (height s0)))),
      Text ''/n'']
   \<and> strip_nl (classification (computed_BMI (scanf_f in1 (weight s0)) (scanf_f in2 (height s0))))
       \<in> set label_names
   \<and> length (labels_printed (fst (main s0 in1 in2))) = 1"
  by (simp add: labels_printed_main strip_nl_classification_label) (simp add: main_output)

text \<open>
  C5.  The floats nearest to 50 and 1.80 are the bit patterns \<open>0x42480000\<close> and
  \<open>0x3FE66666\<close>.  On them the computed BMI is 8090865/524288, about 15.4321, and
  the program prints "Obesity".
\<close>

theorem C5_run_50_180:
  "f32_round False 50 = F32 False 132 0x480000
   \<and> f32_round False (180 / 100) = F32 False 127 0x666666
   \<and> val_of (computed_BMI (F32 False 132 0x480000) (F32 False 127 0x666666))
       = Num (8090865 / 524288)
   \<and> \<bar>8090865 / 524288 - 1543 / 100\<bar> < (1 / 100 :: real)
   \<and> labels_printed (fst (main some_locals (Some (F32 False 132 0x480000))
         (Some (F32 False 127 0x666666)))) = [''Obesity'']"
proof -
  have "f32_round False 50 = F32 False 132 0x480000"
    by (simp add: f32_eval)
  moreover have "f32_round False (180 / 100) = F32 False 127 0x666666"
    by (simp add: f32_eval)
  moreover have "val_of (computed_BMI (F32 False 132 0x480000) (F32 False 127 0x666666))
       = Num (8090865 / 524288)"
    by (simp only: BMI_50_180 val_50_180)
  ultimately show ?thesis
    by (simp add: labels_printed_Some strip_nl_classification)
qed

text \<open>C6.  Every run ends with exit status 0.\<close>

theorem C6_exit_zero: "snd (main s0 in1 in2) = 0"
  by (simp add: main_output)

text \<open>
  C7.  With a height of zero (of either sign) the run still ends with status 0: the
  product \<open>height*height\<close> is +0, the quotient is an infinity or a NaN, and one label
  is printed for it.  A weight above zero gives +infinity and "Underweight".
\<close>

theorem C7_height_zero:
  assumes "is_zero h"
  shows "snd (main s0 (Some w) (Some h)) = 0
     \<and> (is_inf (computed_BMI w h) \<or> is_nan (computed_BMI w h))
     \<and> length (labels_printed (fst (main s0 (Some w) (Some h)))) = 1
     \<and> set (labels_printed (fst (main s0 (Some w) (Some h)))) \<subseteq> set label_names
     \<and> (xlt (Num 0) (val_of w) \<longrightarrow>
          val_of (computed_BMI w h) = PosInf
          \<and> labels_printed (fst (main s0 (Some w) (Some h))) = [''Underweight''])"
proof -
  have b: "computed_BMI w h = (if is_nan w \<or> is_zero w then f32_nan else f32_inf (sign w))"
    using assms by (rule BMI_height_zero)
  have "is_inf (computed_BMI w h) \<or> is_nan (computed_BMI w h)"
    by (simp add: b is_inf_def is_nan_def f32_nan_def f32_inf_def)
  moreover have "xlt (Num 0) (val_of w) \<longrightarrow> val_of (computed_BMI w h) = PosInf"
    using positive_weight [of w] by (simp add: b)
  moreover have "val_of (computed_BMI w h) = PosInf \<longrightarrow>
      labels_printed (fst (main s0 (Some w) (Some h))) = [''Underweight'']"
    by (simp add: labels_printed_Some strip_nl_classification)
  moreover have "snd (main s0 (Some w) (Some h)) = 0"
    by (simp add: main_output)
  ultimately show ?thesis
    using strip_nl_classification_label [of "computed_BMI w h"]
    by (simp add: labels_printed_Some)
qed

theorem C7_witness:
  "is_zero (f32_zero False)
   \<and> val_of (computed_BMI (F32 False 132 0x480000) (f32_zero False)) = PosInf
   \<and> labels_printed (fst (main some_locals (Some (F32 False 132 0x480000))
         (Some (f32_zero False)))) = [''Underweight'']"
proof -
  have z: "is_zero (f32_zero False)" by (simp add: is_zero_def f32_zero_def)
  have p: "xlt (Num 0) (val_of (F32 False 132 0x480000))" by (simp add: f32_eval)
  show ?thesis
    using z p C7_height_zero [OF z, of some_locals "F32 False 132 0x480000"] by simp
qed

text \<open>
  C8.  The output and the exit status are determined by the weight and the height read:
  two runs that read the same values agree, whatever their uninitialised locals held.
\<close>

theorem C8_deterministic: "main s0 (Some w) (Some h) = main s0' (Some w) (Some h)"
  by (simp add: main_output scanf_f_def)

text \<open>
  C9.  When the computed BMI is exactly 18.5 the strict first guard fails, the second guard
  holds and "Normal weight" is printed; no other BMI prints that label.
\<close>

theorem C9_boundary_normal:
  "(val_of (computed_BMI w h) = Num (37 / 2) \<longrightarrow>
      \<not> xgt (val_of (computed_BMI w h)) (dbl_const (37 / 2))
      \<and> xge (val_of (computed_BMI w h)) (dbl_const (37 / 2))
      \<and> xle (val_of (computed_BMI w h)) (dbl_const (249 / 10)))
   \<and> (labels_printed (fst (main s0 (Some w) (Some h))) = [''Normal weight'']
        \<longleftrightarrow> val_of (computed_BMI w h) = Num (37 / 2))"
  by (simp add: labels_printed_Some strip_nl_classification dbl_18_5 dbl_24_9 xgt_def xge_def)

theorem C9_witness:
  "val_of (computed_BMI (F32 False 131 0x140000) (F32 False 127 0)) = Num (37 / 2)
   \<and> labels_printed (fst (main some_locals (Some (F32 False 131 0x140000)) (Some (F32 False 127 0))))
       = [''Normal weight'']"
  using C9_boundary_normal [of "F32 False 131 0x140000" "F32 False 127 0" some_locals]
  by (simp add: BMI_18_5)

text \<open>
  C10.  When the computed BMI is a NaN, as it is for weight 0 and height 0, every
  comparison of the chain is false and the final \<open>else\<close> prints "Obesity".
\<close>

theorem C10_nan_obesity:
  "is_nan (computed_BMI (f32_zero False) (f32_zero False))
   \<and> (is_nan (computed_BMI w h) \<longrightarrow>
        \<not> xgt (val_of (computed_BMI w h)) (dbl_const (37 / 2))
        \<and> \<not> xge (val_of (computed_BMI w h)) (dbl_const (37 / 2))
        \<and> \<not> xle (val_of (computed_BMI w h)) (dbl_const (249 / 10))
        \<and> \<not> xge (val_of (computed_BMI w h)) (Num 25)
        \<and> \<not> xle (val_of (computed_BMI w h)) (dbl_const (299 / 10))
        \<and> labels_printed (fst (main s0 (Some w) (Some h))) = [''Obesity''])"
proof -
  have "is_zero (f32_zero False)" by (simp add: is_zero_def f32_zero_def)
  then have "computed_BMI (f32_zero False) (f32_zero False) = f32_nan"
    by (simp add: BMI_height_zero)
  then show ?thesis
    by (auto simp: is_nan_val labels_printed_Some strip_nl_classification
        dbl_18_5 dbl_24_9 dbl_29_9 xgt_def xge_def)
qed

theorem C10_witness:
  "is_nan (computed_BMI (f32_zero False) (f32_zero False))
   \<and> labels_printed (fst (main some_locals (Some (f32_zero False)) (Some (f32_zero False))))
       = [''Obesity'']"
  using C10_nan_obesity [of "f32_zero False" "f32_zero False" some_locals] by simp

end
